theory Spec2Isabelle
  imports Complex_Main
begin

section \<open>Impulcifer: the impulse-response pipeline of \<open>impulcifer.py\<close>\<close>

text \<open>
  The development embeds the functions of \<open>src/impulcifer.py\<close> that turn a multitrack
  sweep recording into head-related impulse responses. NumPy arrays of samples are
  lists of reals (a two-dimensional array carries its column count, which NumPy keeps
  even when there is no row), Python and NumPy integers are \<open>int\<close> or \<open>nat\<close>, and every
  exception the code can raise is a value of the type \<open>error\<close>.
\<close>

subsection \<open>Errors and arrays\<close>

datatype error =
    ConfigurationError            \<comment> \<open>ValueError: silence length must produce full samples\<close>
  | MeasurementIntegrityError string  \<comment> \<open>ValueError of \<open>crop_ir_head\<close>, with its message\<close>
  | UnsupportedChannelError       \<comment> \<open>named by the specification; no statement of the code raises it\<close>
  | SamplingRateRequired          \<comment> \<open>TypeError of \<open>deconv\<close> without a sampling rate\<close>
  | PairError                     \<comment> \<open>ValueError: an ear pair with exactly one silent member\<close>
  | IndexError
  | KeyError
  | ZeroDivisionError
  | UnboundLocalError
  | EmptyInputError               \<comment> \<open>ValueError of argmax, max or vstack on an empty sequence\<close>
  | ShapeError                    \<comment> \<open>ValueError or TypeError of NumPy on mismatching shapes\<close>
  | OverflowError
  | NonFiniteResult               \<comment> \<open>a division by zero of NumPy: the samples are inf or nan\<close>

record array2d =
  ncols :: nat
  rows :: "real list list"

definition well_shaped :: "array2d \<Rightarrow> bool" where
  "well_shaped a = list_all (\<lambda>r. length r = ncols a) (rows a)"

text \<open>Running a fallible step over a list stops at the first error, as the exception does.\<close>

fun collect :: "('a \<Rightarrow> error + 'b) \<Rightarrow> 'a list \<Rightarrow> error + 'b list" where
  "collect f [] = Inr []"
| "collect f (x # xs) =
     (case f x of
        Inl e \<Rightarrow> Inl e
      | Inr y \<Rightarrow> (case collect f xs of Inl e \<Rightarrow> Inl e | Inr ys \<Rightarrow> Inr (y # ys)))"

text \<open>Python's \<open>list.index\<close>: the first position of an element.\<close>

fun index_of :: "'a list \<Rightarrow> 'a \<Rightarrow> nat option" where
  "index_of [] x = None"
| "index_of (y # ys) x = (if y = x then Some 0 else map_option Suc (index_of ys x))"

subsection \<open>Channel tables\<close>

definition SPEAKER_NAMES :: "string list" where
  "SPEAKER_NAMES = [''FL'', ''FR'', ''FC'', ''BL'', ''BR'', ''SL'', ''SR'']"

text \<open>The loop that builds \<open>IR_ORDER\<close>, and the same loop in \<open>reorder_tracks\<close>.\<close>

definition ear_names :: "string list \<Rightarrow> string list" where
  "ear_names speakers = concat (map (\<lambda>ch. [ch @ ''-left'', ch @ ''-right'']) speakers)"

definition IR_ORDER :: "string list" where
  "IR_ORDER = ear_names SPEAKER_NAMES"

subsection \<open>\<open>reorder_tracks\<close>\<close>

definition reorder_slot :: "array2d \<Rightarrow> string list \<Rightarrow> string \<Rightarrow> error + real list" where
  "reorder_slot tracks track_names ch =
     (if ch \<notin> set track_names then Inr (replicate (ncols tracks) 0)
      else (case index_of track_names ch of
              None \<Rightarrow> Inl IndexError
            | Some k \<Rightarrow>
                if k < length (rows tracks) then Inr (rows tracks ! k) else Inl IndexError))"

definition reorder_tracks :: "array2d \<Rightarrow> string list \<Rightarrow> error + array2d" where
  "reorder_tracks tracks speakers =
     (let track_names = ear_names speakers in
      case collect (reorder_slot tracks track_names) IR_ORDER of
        Inl e \<Rightarrow> Inl e
      | Inr reordered \<Rightarrow> Inr \<lparr>ncols = ncols tracks, rows = reordered\<rparr>)"

text \<open>What a slot of the reordered array holds when no index is out of range.\<close>

definition slot_value :: "array2d \<Rightarrow> string list \<Rightarrow> string \<Rightarrow> real list" where
  "slot_value tracks names ch =
     (case index_of names ch of None \<Rightarrow> replicate (ncols tracks) 0 | Some k \<Rightarrow> rows tracks ! k)"

subsection \<open>NumPy helpers\<close>

text \<open>
  \<open>np.argmax\<close> returns the first position of the largest element; on a Boolean array
  that is the first position that holds \<open>True\<close>, and position 0 when none does.
\<close>

primrec find_first :: "('a \<Rightarrow> bool) \<Rightarrow> 'a list \<Rightarrow> nat option" where
  "find_first P [] = None"
| "find_first P (x # xs) = (if P x then Some 0 else map_option Suc (find_first P xs))"

definition maximum :: "real list \<Rightarrow> real" where
  "maximum xs = foldl max (hd xs) (tl xs)"

definition argmax :: "real list \<Rightarrow> nat" where
  "argmax xs = (case find_first (\<lambda>x. x = maximum xs) xs of Some i \<Rightarrow> i | None \<Rightarrow> 0)"

definition argmax_bool :: "bool list \<Rightarrow> nat" where
  "argmax_bool bs = (case find_first (\<lambda>b. b) bs of Some i \<Rightarrow> i | None \<Rightarrow> 0)"

text \<open>Python's \<open>int(x)\<close> on a float truncates towards zero.\<close>

definition py_int :: "real \<Rightarrow> int" where
  "py_int x = (if 0 \<le> x then \<lfloor>x\<rfloor> else \<lceil>x\<rceil>)"

text \<open>Python slices \<open>xs[i:]\<close> and \<open>xs[:i]\<close>: a negative index counts from the end.\<close>

definition slice_from :: "int \<Rightarrow> 'a list \<Rightarrow> 'a list" where
  "slice_from i xs = (if 0 \<le> i then drop (nat i) xs else drop (length xs - nat (- i)) xs)"

definition slice_to :: "int \<Rightarrow> 'a list \<Rightarrow> 'a list" where
  "slice_to i xs = (if 0 \<le> i then take (nat i) xs else take (length xs - nat (- i)) xs)"

subsection \<open>\<open>normalize\<close>\<close>

text \<open>
  \<open>np.argmax(x)\<close> is taken over the flattened array, and the array is divided by the
  absolute value of the element found there. When that element is zero NumPy does not
  raise: it returns inf and nan samples, which the model reports as \<open>NonFiniteResult\<close>.
\<close>

definition normalize :: "array2d \<Rightarrow> real \<Rightarrow> error + array2d" where
  "normalize x target_db =
     (let flat = concat (rows x) in
      if flat = [] then Inl EmptyInputError
      else
        let arg_max = argmax flat; m = \<bar>flat ! arg_max\<bar> in
        if m = 0 then Inl NonFiniteResult
        else Inr \<lparr>ncols = ncols x,
                  rows = map (map (\<lambda>v. v / m * 10 powr (target_db / 20))) (rows x)\<rparr>)"

text \<open>The global peak magnitude of a channel set: the largest absolute sample value.\<close>

definition global_peak :: "array2d \<Rightarrow> real" where
  "global_peak x = maximum (map abs (concat (rows x)))"

subsection \<open>\<open>tail_index\<close>\<close>

text \<open>
  The \<open>for\<close> loop from \<open>peak_index + 1\<close>: it leaves \<open>i\<close> at the first window whose value
  is above its predecessor's, or at the last window when there is none.
\<close>

function rise_index :: "real list \<Rightarrow> nat \<Rightarrow> nat" where
  "rise_index rms i =
     (if i + 1 < length rms \<and> \<not> rms ! i > rms ! (i - 1) then rise_index rms (i + 1) else i)"
  by pat_completeness auto
termination
  by (relation "measure (\<lambda>(rms, i). length rms - i)") auto

declare rise_index.simps [simp del]

text \<open>
  \<open>np.argmax\<close> of an empty array raises; when the peak is the last window the loop body
  never runs and reading \<open>i\<close> raises \<open>UnboundLocalError\<close>.
\<close>

definition tail_index :: "real list \<Rightarrow> real \<Rightarrow> error + int" where
  "tail_index rms rms_window_size =
     (if rms = [] then Inl EmptyInputError
      else
        let peak_index = argmax rms in
        if \<not> peak_index + 1 < length rms then Inl UnboundLocalError
        else
          let i = rise_index rms (peak_index + 1);
              noise_floor = rms ! i + 3;
              tail_ind = argmax_bool (map (\<lambda>v. v < noise_floor) rms)
          in Inr (py_int (real tail_ind * rms_window_size)))"

subsection \<open>Library functions used by \<open>crop_ir_head\<close>\<close>

text \<open>
  \<open>scipy.signal.find_peaks(x, height=h)\<close>, after the library's own loop: a local
  maximum is a sample, or the middle of a flat run of samples, that is strictly above
  both neighbours; the first and the last sample never are. The peaks below the
  height are then dropped.
\<close>

function plateau_end :: "real list \<Rightarrow> nat \<Rightarrow> real \<Rightarrow> nat" where
  "plateau_end x i_ahead v =
     (if i_ahead < length x - 1 \<and> x ! i_ahead = v then plateau_end x (i_ahead + 1) v else i_ahead)"
  by pat_completeness auto
termination
  by (relation "measure (\<lambda>(x, i_ahead, v). length x - i_ahead)") auto

declare plateau_end.simps [simp del]

lemma plateau_end_ge: "i \<le> plateau_end x i v"
proof (induction x i v rule: plateau_end.induct)
  case (1 x i v)
  then show ?case by (subst plateau_end.simps) auto
qed

function local_maxima :: "real list \<Rightarrow> nat \<Rightarrow> nat list" where
  "local_maxima x i =
     (if i < length x - 1 then
        (if x ! (i - 1) < x ! i then
           (let i_ahead = plateau_end x (i + 1) (x ! i) in
            if x ! i_ahead < x ! i
            then ((i + i_ahead - 1) div 2) # local_maxima x (i_ahead + 1)
            else local_maxima x (i + 1))
         else local_maxima x (i + 1))
      else [])"
  by pat_completeness auto
termination
proof (relation "measure (\<lambda>(x, i). length x - i)", goal_cases)
  case 1
  then show ?case by simp
next
  case (2 x i i_ahead)
  then show ?case using plateau_end_ge [of "i + 1" x "x ! i"] by simp
next
  case (3 x i i_ahead)
  then show ?case by simp
next
  case (4 x i)
  then show ?case by simp
qed

declare local_maxima.simps [simp del]

definition find_peaks :: "real list \<Rightarrow> real \<Rightarrow> nat list" where
  "find_peaks x height = filter (\<lambda>p. height \<le> x ! p) (local_maxima x 1)"

text \<open>
  \<open>scipy.signal.kaiser(M, beta)\<close>: \<open>M\<close> samples of the Kaiser window, by the library's
  formula with the modified Bessel function of order zero.
\<close>

definition bessel_i0 :: "real \<Rightarrow> real" where
  "bessel_i0 x = (\<Sum>k. ((x / 2) ^ k / fact k)\<^sup>2)"

definition kaiser :: "nat \<Rightarrow> real \<Rightarrow> real list" where
  "kaiser M beta =
     (if M = 1 then [1]
      else
        let alpha = (real M - 1) / 2 in
        map (\<lambda>n. bessel_i0 (beta * sqrt (1 - ((real n - alpha) / alpha)\<^sup>2)) / bessel_i0 beta)
          [0..<M])"

text \<open>
  NumPy's in-place \<open>xs[:head] *= window\<close>: the shapes must agree, or the window must
  hold a single value; otherwise the multiplication raises.
\<close>

definition imul_prefix :: "nat \<Rightarrow> real list \<Rightarrow> real list \<Rightarrow> error + real list" where
  "imul_prefix head window xs =
     (let v = take head xs in
      if length window = length v then Inr (map2 (*) v window @ drop head xs)
      else if length window = 1 then Inr (map (\<lambda>a. a * hd window) v @ drop head xs)
      else Inl ShapeError)"

text \<open>\<open>np.round\<close> rounds a tie to the even neighbour.\<close>

definition np_round :: "real \<Rightarrow> int" where
  "np_round x =
     (let f = \<lfloor>x\<rfloor>; d = x - of_int f in
      if d < 1 / 2 then f else if 1 / 2 < d then f + 1 else if even f then f else f + 1)"

subsection \<open>\<open>crop_ir_head\<close>\<close>

definition SPEAKER_DELAYS :: "string \<rightharpoonup> real" where
  "SPEAKER_DELAYS =
     [''FL'' \<mapsto> 107 / 1000, ''FR'' \<mapsto> 107 / 1000, ''FC'' \<mapsto> 214 / 1000,
      ''BL'' \<mapsto> 107 / 1000, ''BR'' \<mapsto> 107 / 1000, ''SL'' \<mapsto> 0, ''SR'' \<mapsto> 0]"

text \<open>
  The first qualifying peak, \<open>find_peaks(ir / np.max(ir), height=0.1)[0]\<close>. \<open>np.max\<close>
  raises on an empty array and indexing an empty peak array raises \<open>IndexError\<close>.
  When the maximum is zero NumPy divides to nan and -inf only, which hold no peak.
\<close>

definition first_peak :: "real list \<Rightarrow> error + nat" where
  "first_peak ir =
     (if ir = [] then Inl EmptyInputError
      else
        let mx = maximum ir in
        if mx = 0 then Inl IndexError
        else (case find_peaks (map (\<lambda>v. v / mx) ir) (1 / 10) of
                [] \<Rightarrow> Inl IndexError
              | p # _ \<Rightarrow> Inr p))"

definition head_samples :: "nat \<Rightarrow> nat \<Rightarrow> nat" where
  "head_samples head_ms fs = head_ms * fs div 1000"

text \<open>The channel delay in samples, \<open>int(np.round(SPEAKER_DELAYS[speaker] / 1000 * fs)) + head\<close>.\<close>

definition channel_delay :: "string \<Rightarrow> nat \<Rightarrow> nat \<Rightarrow> error + int" where
  "channel_delay speaker fs head =
     (case SPEAKER_DELAYS speaker of
        None \<Rightarrow> Inl KeyError
      | Some d \<Rightarrow> Inr (np_round (d / 1000 * real fs) + int head))"

text \<open>The two branches on the order of the peaks, with the check against the speaker's side.\<close>

definition crop_pair ::
  "real list \<Rightarrow> real list \<Rightarrow> string \<Rightarrow> nat \<Rightarrow> nat \<Rightarrow> int \<Rightarrow> error + real list \<times> real list" where
  "crop_pair left right speaker peak_left peak_right delay =
     (let itd = \<bar>int peak_left - int peak_right\<bar> in
      if peak_left < peak_right then
        if speaker ! 1 = CHR ''R''
        then Inl (MeasurementIntegrityError
               (speaker @ '' impulse response has lower delay to left ear than to right.''))
        else Inr (slice_from (int peak_left - delay) left,
                  slice_from (int peak_right - (delay + itd)) right)
      else
        if speaker ! 1 = CHR ''L''
        then Inl (MeasurementIntegrityError
               (speaker @ '' impulse response has lower delay to right ear than to left.''))
        else Inr (slice_from (int peak_left - (delay + itd)) left,
                  slice_from (int peak_right - delay) right))"

definition crop_ir_head ::
  "real list \<Rightarrow> real list \<Rightarrow> string \<Rightarrow> nat \<Rightarrow> nat \<Rightarrow> error + real list \<times> real list" where
  "crop_ir_head left right speaker fs head_ms =
     (case first_peak left of Inl e \<Rightarrow> Inl e | Inr peak_left \<Rightarrow>
      case first_peak right of Inl e \<Rightarrow> Inl e | Inr peak_right \<Rightarrow>
      let head = head_samples head_ms fs in
      case channel_delay speaker fs head of Inl e \<Rightarrow> Inl e | Inr delay \<Rightarrow>
      case crop_pair left right speaker peak_left peak_right delay of
        Inl e \<Rightarrow> Inl e
      | Inr (left', right') \<Rightarrow>
          let window = take head (kaiser (head * 2) 16) in
          case imul_prefix head window left' of Inl e \<Rightarrow> Inl e | Inr left'' \<Rightarrow>
          case imul_prefix head window right' of Inl e \<Rightarrow> Inl e | Inr right'' \<Rightarrow>
          Inr (left'', right''))"

text \<open>A cropped channel after the fade-in, when the channel holds at least \<open>head\<close> samples.\<close>

definition fade_in :: "nat \<Rightarrow> real list \<Rightarrow> real list" where
  "fade_in head xs = map2 (*) (take head xs) (take head (kaiser (head * 2) 16)) @ drop head xs"

subsection \<open>\<open>deconv\<close>, inverse filter method\<close>

text \<open>
  \<open>scipy.signal.fftconvolve(a, b, mode='full')\<close> is the linear convolution of the two
  signals, computed by the library through the Fourier transform; it is empty when
  one of them is.
\<close>

definition convolve_full :: "real list \<Rightarrow> real list \<Rightarrow> real list" where
  "convolve_full xs ys =
     (if xs = [] \<or> ys = [] then []
      else map (\<lambda>k. \<Sum>i\<leftarrow>[0..<Suc k].
                    if i < length xs \<and> k - i < length ys then xs ! i * ys ! (k - i) else 0)
             [0..<length xs + length ys - 1])"

text \<open>One bin of the discrete Fourier transform, as \<open>fft(frp)[b]\<close>.\<close>

definition dft_bin :: "real list \<Rightarrow> nat \<Rightarrow> complex" where
  "dft_bin ys b =
     (\<Sum>n<length ys. complex_of_real (ys ! n) * cis (- 2 * pi * real b * real n / real (length ys)))"

text \<open>
  The time-reversed test signal, weighted by an exponential that falls by 6 dB per
  octave between 20 Hz and 20000 Hz.
\<close>

definition inverse_filter :: "real list \<Rightarrow> nat \<Rightarrow> real list" where
  "inverse_filter test_signal fs =
     (let low = 20; high = 20000;
          w1 = low / real fs * 2 * pi;
          w2 = high / real fs * 2 * pi;
          k_end = 10 powr ((- 6 * log 2 (w2 / w1)) / 20);
          k = ln k_end / real (length test_signal);
          c = map (\<lambda>t. exp (real t * k)) [0..<length test_signal]
      in map2 (*) (rev test_signal) c)"

text \<open>The normalisation probe \<open>np.abs(frp[round(frp.shape[0] / 4)])\<close>.\<close>

definition filter_gain :: "real list \<Rightarrow> nat \<Rightarrow> real" where
  "filter_gain test_signal fs =
     (let frp = convolve_full (inverse_filter test_signal fs) test_signal
      in cmod (dft_bin frp (nat (np_round (real (length frp) / 4)))))"

definition normalized_filter :: "real list \<Rightarrow> nat \<Rightarrow> real list" where
  "normalized_filter test_signal fs =
     map (\<lambda>v. v / filter_gain test_signal fs) (inverse_filter test_signal fs)"

text \<open>
  The branch \<open>method == 'inverse_filter'\<close> of \<open>deconv\<close>, for a one-dimensional recording
  and the test signal after \<open>np.squeeze\<close>. A missing sampling rate raises the
  \<open>TypeError\<close> of the source; a rate of zero raises \<open>ZeroDivisionError\<close>; a test signal
  of one sample is squeezed to a scalar, whose \<open>len\<close> raises, and an empty one asks for
  a buffer of negative size. A probe of magnitude zero makes NumPy divide the filter
  to inf and nan.
\<close>

definition deconv_inverse_filter ::
  "real list \<Rightarrow> real list \<Rightarrow> nat option \<Rightarrow> error + real list" where
  "deconv_inverse_filter recording test_signal fs =
     (case fs of
        None \<Rightarrow> Inl SamplingRateRequired
      | Some rate \<Rightarrow>
          if rate = 0 then Inl ZeroDivisionError
          else if length test_signal \<le> 1 then Inl ShapeError
          else if filter_gain test_signal rate = 0 then Inl NonFiniteResult
          else
            let inv_filter = normalized_filter test_signal rate;
                h = convolve_full recording inv_filter @ [0]
            in Inr (slice_from (int (length test_signal))
                      (slice_to (int (length test_signal * 2 + 1)) h)))"

subsection \<open>\<open>impulse_response_decay\<close>\<close>

text \<open>
  \<open>scipy.signal.savgol_filter(x, 11, 1)\<close> with the default mode \<open>interp\<close>: inside, each
  value is replaced by the value at the centre of the least-squares line through the 11
  values around it, which is their mean; the first and the last five values are read
  off the line fitted to the first and to the last 11 values. The filter raises when
  the signal has fewer than 11 values.
\<close>

definition line_fit_at :: "real list \<Rightarrow> int \<Rightarrow> real" where
  "line_fit_at ys t =
     (let mean = sum_list ys / 11;
          slope = sum_list (map2 (\<lambda>t y. t * y) [-5, -4, -3, -2, -1, 0, 1, 2, 3, 4, 5] ys) / 110
      in mean + slope * (real_of_int t - 5))"

definition savgol_filter :: "real list \<Rightarrow> error + real list" where
  "savgol_filter x =
     (let n = length x in
      if n < 11 then Inl ShapeError
      else Inr (map (\<lambda>i. if i < 5 then line_fit_at (take 11 x) (int i)
                          else if n - 5 \<le> i then line_fit_at (drop (n - 11) x) (int i - (int n - 11))
                          else sum_list (take 11 (drop (i - 5) x)) / 11)
                [0..<n]))"

primrec smoothen :: "nat \<Rightarrow> real list \<Rightarrow> error + real list" where
  "smoothen 0 x = Inr x"
| "smoothen (Suc passes) x =
     (case savgol_filter x of Inl e \<Rightarrow> Inl e | Inr y \<Rightarrow> smoothen passes y)"

text \<open>
  The decay curve, without the plotting. An integer division by a window size of zero
  raises, and so does \<open>np.split\<close> into zero sections.
\<close>

definition impulse_response_decay :: "real list \<Rightarrow> nat \<Rightarrow> nat \<Rightarrow> error + real list" where
  "impulse_response_decay impulse_response fs window_size_ms =
     (let window_size = fs div 1000 * window_size_ms in
      if window_size = 0 then Inl ZeroDivisionError
      else
        let n = length impulse_response div window_size in
        if n = 0 then Inl ShapeError
        else
          let windows = map (\<lambda>k. take window_size (drop (k * window_size) impulse_response))
                          [0..<n];
              rms = map (\<lambda>w. sqrt (sum_list (map (\<lambda>v. v\<^sup>2) w) / real window_size)) windows;
              rms' = map (\<lambda>v. if v = 0 then 1 / 1000 else v) rms
          in smoothen 200 (map (\<lambda>v. 20 * log 10 v) rms'))"

subsection \<open>The tail truncation of \<open>main\<close>\<close>

definition silent :: "real list \<Rightarrow> bool" where
  "silent track = list_all (\<lambda>v. v = 0) track"

text \<open>The tail index of one channel, with the window size \<open>fs / 1000\<close> that \<open>main\<close> passes.\<close>

definition channel_tail :: "nat \<Rightarrow> real list \<Rightarrow> error + int" where
  "channel_tail fs track =
     (case impulse_response_decay track fs 1 of
        Inl e \<Rightarrow> Inl e
      | Inr rms \<Rightarrow> tail_index rms (real fs / 1000))"

text \<open>
  The two loops: the tail indices of the channels that are not silent, and the cut of
  every channel at the largest of them. \<open>max\<close> of an empty list raises.
\<close>

definition truncate_tails :: "nat \<Rightarrow> real list list \<Rightarrow> error + real list list" where
  "truncate_tails fs cropped =
     (case collect (channel_tail fs) (filter (\<lambda>track. \<not> silent track) cropped) of
        Inl e \<Rightarrow> Inl e
      | Inr tail_indices \<Rightarrow>
          if tail_indices = [] then Inl EmptyInputError
          else
            let tail_ind = foldl max (hd tail_indices) (tl tail_indices)
            in Inr (map (slice_to tail_ind) cropped))"

text \<open>\<open>np.vstack\<close> needs at least one row, and rows of one length.\<close>

definition vstack :: "real list list \<Rightarrow> error + array2d" where
  "vstack tracks =
     (case tracks of
        [] \<Rightarrow> Inl EmptyInputError
      | t # ts \<Rightarrow>
          if list_all (\<lambda>r. length r = length t) ts
          then Inr \<lparr>ncols = length t, rows = tracks\<rparr>
          else Inl ShapeError)"

definition crop_tails :: "nat \<Rightarrow> real list list \<Rightarrow> error + array2d" where
  "crop_tails fs cropped =
     (case truncate_tails fs cropped of Inl e \<Rightarrow> Inl e | Inr tracks \<Rightarrow> vstack tracks)"

section \<open>Properties\<close>

subsection \<open>Reordering into the canonical channel order\<close>

lemma IR_ORDER_eq: "IR_ORDER = [''FL-left'', ''FL-right'', ''FR-left'', ''FR-right'', ''FC-left'', ''FC-right'',
   ''BL-left'', ''BL-right'', ''BR-left'', ''BR-right'', ''SL-left'', ''SL-right'', ''SR-left'', ''SR-right'']"
  by (simp add: IR_ORDER_def ear_names_def SPEAKER_NAMES_def)

lemma index_of_less: "index_of xs x = Some k \<Longrightarrow> k < length xs"
  by (induction xs arbitrary: k) (auto split: if_splits)

lemma index_of_None: "index_of xs x = None \<longleftrightarrow> x \<notin> set xs"
  by (induction xs) auto

lemma length_ear_names: "length (ear_names sp) = 2 * length sp"
  by (induction sp) (auto simp: ear_names_def)

lemma left_neq_right: "s @ ''-left'' \<noteq> t @ ''-right''"
proof
  assume "s @ ''-left'' = t @ ''-right''"
  then have "rev (s @ ''-left'') = rev (t @ ''-right'')" by simp
  then show False by simp
qed


lemma index_of_ear_left:
  "index_of (ear_names sp) (s @ ''-left'') = map_option (\<lambda>j. 2 * j) (index_of sp s)"
  using left_neq_right [of s]
  by (induction sp) (auto simp: ear_names_def option.map_comp comp_def)

lemma index_of_ear_right:
  "index_of (ear_names sp) (s @ ''-right'') = map_option (\<lambda>j. 2 * j + 1) (index_of sp s)"
  using left_neq_right [of _ s]
  by (induction sp) (auto simp: ear_names_def option.map_comp comp_def)

lemma index_of_nth: "distinct xs \<Longrightarrow> j < length xs \<Longrightarrow> index_of xs (xs ! j) = Some j"
proof (induction xs arbitrary: j)
  case Nil
  then show ?case by simp
next
  case (Cons a xs)
  then show ?case by (cases j) auto
qed

lemma nth_ear_names:
  "k < length sp \<Longrightarrow> ear_names sp ! (2 * k) = sp ! k @ ''-left'' \<and> ear_names sp ! (2 * k + 1) = sp ! k @ ''-right''"
proof (induction sp arbitrary: k)
  case Nil
  then show ?case by simp
next
  case (Cons a sp)
  then show ?case by (cases k) (auto simp: ear_names_def)
qed

lemma collect_map: "(\<And>x. x \<in> set xs \<Longrightarrow> f x = Inr (g x)) \<Longrightarrow> collect f xs = Inr (map g xs)"
  by (induction xs) auto

lemma reorder_slot_value:
  assumes "length names \<le> length (rows tracks)"
  shows "reorder_slot tracks names ch = Inr (slot_value tracks names ch)"
proof (cases "index_of names ch")
  case None
  moreover from None have "ch \<notin> set names" by (simp add: index_of_None)
  ultimately show ?thesis by (simp add: reorder_slot_def slot_value_def)
next
  case (Some k)
  then have "k < length names" by (rule index_of_less)
  moreover from Some have "ch \<in> set names" using index_of_None [of names ch] by auto
  ultimately show ?thesis using Some assms by (simp add: reorder_slot_def slot_value_def)
qed

lemma reorder_tracks_total:
  assumes "2 * length speakers \<le> length (rows tracks)"
  shows "reorder_tracks tracks speakers =
    Inr \<lparr>ncols = ncols tracks, rows = map (slot_value tracks (ear_names speakers)) IR_ORDER\<rparr>"
proof -
  have "length (ear_names speakers) \<le> length (rows tracks)"
    using assms by (simp add: length_ear_names)
  then have "collect (reorder_slot tracks (ear_names speakers)) IR_ORDER =
      Inr (map (slot_value tracks (ear_names speakers)) IR_ORDER)"
    by (intro collect_map reorder_slot_value)
  then show ?thesis by (simp add: reorder_tracks_def)
qed

lemma length_IR_ORDER: "length IR_ORDER = 14"
  by (simp add: IR_ORDER_def length_ear_names SPEAKER_NAMES_def)

lemma length_SPEAKER_NAMES: "length SPEAKER_NAMES = 7"
  by (simp add: SPEAKER_NAMES_def)

text \<open>
  Claim C6. For a declared order of distinct recognized speaker labels and tracks holding
  two rows per declared speaker, \<open>reorder_tracks\<close> returns 14 rows in the order of
  \<open>IR_ORDER\<close>: slots \<open>2k\<close> and \<open>2k+1\<close> of speaker \<open>k\<close> of \<open>SPEAKER_NAMES\<close> hold the
  unchanged left and right rows of that speaker when it is declared, and zero rows of
  the input's width when it is not.
\<close>

theorem reorder_tracks_canonical:
  assumes "distinct speakers" and "set speakers \<subseteq> set SPEAKER_NAMES"
    and "length (rows tracks) = 2 * length speakers"
  shows "\<exists>out. reorder_tracks tracks speakers = Inr out \<and> ncols out = ncols tracks \<and>
      length (rows out) = length IR_ORDER \<and>
      (\<forall>k<length SPEAKER_NAMES.
         (\<forall>j<length speakers. speakers ! j = SPEAKER_NAMES ! k \<longrightarrow>
            rows out ! (2 * k) = rows tracks ! (2 * j) \<and>
            rows out ! (2 * k + 1) = rows tracks ! (2 * j + 1)) \<and>
         (SPEAKER_NAMES ! k \<notin> set speakers \<longrightarrow>
            rows out ! (2 * k) = replicate (ncols tracks) 0 \<and>
            rows out ! (2 * k + 1) = replicate (ncols tracks) 0))"
proof -
  let ?names = "ear_names speakers"
  let ?out = "\<lparr>ncols = ncols tracks, rows = map (slot_value tracks ?names) IR_ORDER\<rparr>"
  have eq: "reorder_tracks tracks speakers = Inr ?out"
    using assms(3) by (intro reorder_tracks_total) simp
  have slots: "rows ?out ! (2 * k) = slot_value tracks ?names (SPEAKER_NAMES ! k @ ''-left'') \<and>
      rows ?out ! (2 * k + 1) = slot_value tracks ?names (SPEAKER_NAMES ! k @ ''-right'')"
    if "k < length SPEAKER_NAMES" for k
  proof -
    from that have "2 * k < length IR_ORDER" "2 * k + 1 < length IR_ORDER"
      by (simp_all add: IR_ORDER_def length_ear_names)
    then show ?thesis
      using nth_ear_names [OF that] by (simp add: IR_ORDER_def)
  qed
  have present: "slot_value tracks ?names (speakers ! j @ ''-left'') = rows tracks ! (2 * j) \<and>
      slot_value tracks ?names (speakers ! j @ ''-right'') = rows tracks ! (2 * j + 1)"
    if "j < length speakers" for j
    using index_of_nth [OF assms(1) that]
    by (simp add: slot_value_def index_of_ear_left index_of_ear_right)
  have absent: "slot_value tracks ?names (s @ ''-left'') = replicate (ncols tracks) 0 \<and>
      slot_value tracks ?names (s @ ''-right'') = replicate (ncols tracks) 0"
    if "s \<notin> set speakers" for s
    using that index_of_None [of speakers s]
    by (simp add: slot_value_def index_of_ear_left index_of_ear_right)
  have "rows ?out ! (2 * k) = rows tracks ! (2 * j) \<and>
      rows ?out ! (2 * k + 1) = rows tracks ! (2 * j + 1)"
    if "k < length SPEAKER_NAMES" "j < length speakers" "speakers ! j = SPEAKER_NAMES ! k" for k j
    using slots [OF that(1)] present [OF that(2)] that(3) by simp
  moreover have "rows ?out ! (2 * k) = replicate (ncols tracks) 0 \<and>
      rows ?out ! (2 * k + 1) = replicate (ncols tracks) 0"
    if "k < length SPEAKER_NAMES" "SPEAKER_NAMES ! k \<notin> set speakers" for k
    using slots [OF that(1)] absent [OF that(2)] by simp
  ultimately show ?thesis
    using eq by (intro exI [of _ ?out]) (simp add: length_IR_ORDER)
qed

theorem reorder_tracks_canonical_witness:
  "\<exists>out. reorder_tracks \<lparr>ncols = 2, rows = [[1, 2], [3, 4], [5, 6], [7, 8]]\<rparr> [''FR'', ''FL''] = Inr out \<and>
     rows out ! 0 = [5, 6] \<and> rows out ! 1 = [7, 8] \<and> rows out ! 2 = [1, 2] \<and> rows out ! 3 = [3, 4] \<and>
     rows out ! 4 = [0, 0] \<and> rows out ! 13 = [0, 0] \<and> length (rows out) = 14"
  using reorder_tracks_canonical [of "[''FR'', ''FL'']" "\<lparr>ncols = 2, rows = [[1, 2], [3, 4], [5, 6], [7, 8]]\<rparr>"]
  by (simp add: SPEAKER_NAMES_def length_IR_ORDER All_less_Suc numeral_eq_Suc) blast

lemma collect_Inl: "collect f xs = Inl e \<Longrightarrow> \<exists>x\<in>set xs. f x = Inl e"
  by (induction xs) (auto split: sum.splits)

lemma reorder_slot_error: "reorder_slot tracks names ch = Inl e \<Longrightarrow> e = IndexError"
  by (auto simp: reorder_slot_def split: if_splits option.splits)

text \<open>
  Claim C5 fails on the code: a label outside \<open>SPEAKER_NAMES\<close> is never looked up, so
  no error is raised for it. The declared order \<open>[XX]\<close> gives 14 zero tracks.
\<close>

theorem reorder_tracks_unrecognized_counterexample:
  "''XX'' \<notin> set SPEAKER_NAMES \<and>
   reorder_tracks \<lparr>ncols = 1, rows = [[1], [2]]\<rparr> [''XX''] =
     Inr \<lparr>ncols = 1, rows = replicate 14 [0]\<rparr>"
  by (simp add: reorder_tracks_def reorder_slot_def IR_ORDER_eq ear_names_def SPEAKER_NAMES_def
      numeral_eq_Suc)

text \<open>
  Claim C5 as amended. For a declared order that contains an unrecognized label,
  \<open>reorder_tracks\<close> never fails with \<open>UnsupportedChannelError\<close>; when the tracks hold
  two rows per declared label it returns 14 rows, where the slots of a speaker of
  \<open>SPEAKER_NAMES\<close> hold the rows of its first declaration, or zero rows when it is not
  declared. The rows of the unrecognized label appear nowhere in the result.
\<close>

theorem reorder_tracks_ignores_unrecognized:
  assumes "\<exists>s\<in>set speakers. s \<notin> set SPEAKER_NAMES"
  shows "reorder_tracks tracks speakers \<noteq> Inl UnsupportedChannelError \<and>
    (2 * length speakers \<le> length (rows tracks) \<longrightarrow>
      (\<exists>out. reorder_tracks tracks speakers = Inr out \<and> length (rows out) = 14 \<and>
         (\<forall>k<length SPEAKER_NAMES.
            rows out ! (2 * k) =
              (case index_of speakers (SPEAKER_NAMES ! k) of
                 None \<Rightarrow> replicate (ncols tracks) 0 | Some j \<Rightarrow> rows tracks ! (2 * j)) \<and>
            rows out ! (2 * k + 1) =
              (case index_of speakers (SPEAKER_NAMES ! k) of
                 None \<Rightarrow> replicate (ncols tracks) 0 | Some j \<Rightarrow> rows tracks ! (2 * j + 1)))))"
proof (intro conjI impI)
  show "reorder_tracks tracks speakers \<noteq> Inl UnsupportedChannelError"
  proof
    assume "reorder_tracks tracks speakers = Inl UnsupportedChannelError"
    then have "collect (reorder_slot tracks (ear_names speakers)) IR_ORDER =
        Inl UnsupportedChannelError"
      by (simp add: reorder_tracks_def split: sum.splits)
    then obtain ch where "reorder_slot tracks (ear_names speakers) ch = Inl UnsupportedChannelError"
      using collect_Inl by blast
    then show False using reorder_slot_error by blast
  qed
next
  assume size: "2 * length speakers \<le> length (rows tracks)"
  let ?names = "ear_names speakers"
  let ?out = "\<lparr>ncols = ncols tracks, rows = map (slot_value tracks ?names) IR_ORDER\<rparr>"
  have eq: "reorder_tracks tracks speakers = Inr ?out"
    using size by (rule reorder_tracks_total)
  have "rows ?out ! (2 * k) =
        (case index_of speakers (SPEAKER_NAMES ! k) of
           None \<Rightarrow> replicate (ncols tracks) 0 | Some j \<Rightarrow> rows tracks ! (2 * j)) \<and>
      rows ?out ! (2 * k + 1) =
        (case index_of speakers (SPEAKER_NAMES ! k) of
           None \<Rightarrow> replicate (ncols tracks) 0 | Some j \<Rightarrow> rows tracks ! (2 * j + 1))"
    if k: "k < length SPEAKER_NAMES" for k
  proof -
    from k have "2 * k < length IR_ORDER" "2 * k + 1 < length IR_ORDER"
      by (simp_all add: IR_ORDER_def length_ear_names)
    then show ?thesis
      using nth_ear_names [OF k]
      by (simp add: IR_ORDER_def slot_value_def index_of_ear_left index_of_ear_right
          split: option.splits)
  qed
  then show "\<exists>out. reorder_tracks tracks speakers = Inr out \<and> length (rows out) = 14 \<and>
         (\<forall>k<length SPEAKER_NAMES.
            rows out ! (2 * k) =
              (case index_of speakers (SPEAKER_NAMES ! k) of
                 None \<Rightarrow> replicate (ncols tracks) 0 | Some j \<Rightarrow> rows tracks ! (2 * j)) \<and>
            rows out ! (2 * k + 1) =
              (case index_of speakers (SPEAKER_NAMES ! k) of
                 None \<Rightarrow> replicate (ncols tracks) 0 | Some j \<Rightarrow> rows tracks ! (2 * j + 1)))"
    using eq by (intro exI [of _ ?out]) (simp add: length_IR_ORDER)
qed

theorem reorder_tracks_ignores_unrecognized_witness:
  "reorder_tracks \<lparr>ncols = 1, rows = [[1], [2], [3], [4]]\<rparr> [''XX'', ''FR''] \<noteq>
     Inl UnsupportedChannelError \<and>
   (\<exists>out. reorder_tracks \<lparr>ncols = 1, rows = [[1], [2], [3], [4]]\<rparr> [''XX'', ''FR''] = Inr out \<and>
      length (rows out) = 14 \<and> rows out ! 0 = [0] \<and> rows out ! 2 = [3] \<and> rows out ! 3 = [4])"
  using reorder_tracks_ignores_unrecognized
    [of "[''XX'', ''FR'']" "\<lparr>ncols = 1, rows = [[1], [2], [3], [4]]\<rparr>"]
  by (simp add: SPEAKER_NAMES_def All_less_Suc numeral_eq_Suc) blast

subsection \<open>Tail index of a decay curve\<close>

text \<open>
  Claim C1 says that the tail index is the first window at or after the peak-energy
  window that lies below the noise floor plus 3 dB, so that the returned window is
  never before the peak. The code searches the whole curve: \<open>np.argmax(rms < noise_floor)\<close>
  starts at window 0. For the decay curve below the peak is window 3, the loop stops
  at window 11 with the floor estimate -65 dB, and window 0 at -80 dB is already below
  -62 dB: the function returns sample index 0, before the peak, where the claim gives
  window 10, that is sample 480.
\<close>

theorem tail_index_before_peak:
  "argmax [-80, -40, -10, 0, -10, -20, -30, -40, -50, -60, -70, -65] = 3 \<and>
   rise_index [-80, -40, -10, 0, -10, -20, -30, -40, -50, -60, -70, -65] 4 = 11 \<and>
   tail_index [-80, -40, -10, 0, -10, -20, -30, -40, -50, -60, -70, -65] 48 = Inr 0"
  by (simp add: tail_index_def argmax_def maximum_def argmax_bool_def rise_index.simps py_int_def)

subsection \<open>Normalization\<close>

text \<open>
  Claim C4 says that the sample of largest absolute value is scaled to the target
  level. The code divides by the absolute value of the largest signed sample,
  \<open>np.argmax(x)\<close>. For the one-channel signal \<open>[0.5, -1.0]\<close> and the default target of
  -0.1 dB the result is \<open>[g, -2g]\<close> with \<open>g = 10 powr (-0.1 / 20)\<close>: the global peak
  magnitude is \<open>2g\<close>, twice the target level.
\<close>

theorem normalize_signed_maximum:
  "normalize \<lparr>ncols = 2, rows = [[1 / 2, - 1]]\<rparr> (- 1 / 10) =
     Inr \<lparr>ncols = 2, rows = [[10 powr (- 1 / 200), - 2 * 10 powr (- 1 / 200)]]\<rparr> \<and>
   global_peak \<lparr>ncols = 2, rows = [[10 powr (- 1 / 200), - 2 * 10 powr (- 1 / 200)]]\<rparr> =
     2 * 10 powr (- 1 / 200) \<and>
   2 * 10 powr (- 1 / 200) \<noteq> (10::real) powr (- 1 / 200)"
  by (simp add: normalize_def argmax_def maximum_def global_peak_def)

subsection \<open>Head alignment\<close>

text \<open>
  Claim C3 says that the error is raised exactly when the ear that peaks first
  contradicts the speaker's side. The second branch of the code is taken whenever the
  left peak is not strictly earlier, so it also covers equal peaks: for the front left
  speaker and two responses that both peak at sample 1 the code raises, with a message
  that names a lower delay to the right ear, although neither ear is earlier.
\<close>

theorem crop_ir_head_tie_left_speaker:
  "first_peak [0, 1, 0] = Inr 1 \<and>
   crop_ir_head [0, 1, 0] [0, 1, 0] ''FL'' 48000 1 =
     Inl (MeasurementIntegrityError
       ''FL impulse response has lower delay to right ear than to left.'')"
  by (simp add: crop_ir_head_def first_peak_def maximum_def find_peaks_def local_maxima.simps
      plateau_end.simps head_samples_def channel_delay_def SPEAKER_DELAYS_def np_round_def
      crop_pair_def)

lemma plateau_end_le: "j \<le> length x - 1 \<Longrightarrow> plateau_end x j v \<le> length x - 1"
proof (induction x j v rule: plateau_end.induct)
  case (1 x j v)
  then show ?case by (subst plateau_end.simps) auto
qed

lemma local_maxima_range: "0 < i \<Longrightarrow> p \<in> set (local_maxima x i) \<Longrightarrow> i \<le> p \<and> p + 1 < length x"
proof (induction x i arbitrary: p rule: local_maxima.induct)
  case (1 x i)
  show ?case
  proof (cases "i < length x - 1")
    case False
    with "1.prems" show ?thesis by (subst (asm) local_maxima.simps) simp
  next
    case inside: True
    show ?thesis
    proof (cases "x ! (i - 1) < x ! i")
      case False
      with inside "1.prems" have "p \<in> set (local_maxima x (i + 1))"
        by (subst (asm) local_maxima.simps) simp
      with "1.IH"(3) [OF inside False] show ?thesis by force
    next
      case rising: True
      define a where "a = plateau_end x (i + 1) (x ! i)"
      have a_ge: "i + 1 \<le> a" unfolding a_def by (rule plateau_end_ge)
      have a_le: "a \<le> length x - 1" unfolding a_def using inside by (intro plateau_end_le) simp
      show ?thesis
      proof (cases "x ! a < x ! i")
        case True
        with inside rising "1.prems" have "p = (i + a - 1) div 2 \<or> p \<in> set (local_maxima x (a + 1))"
          by (subst (asm) local_maxima.simps) (auto simp: a_def Let_def)
        then show ?thesis
        proof
          assume "p = (i + a - 1) div 2"
          with a_ge a_le inside show ?thesis by auto
        next
          assume "p \<in> set (local_maxima x (a + 1))"
          with "1.IH"(1) [OF inside rising a_def True] a_ge show ?thesis by force
        qed
      next
        case False
        with inside rising "1.prems" have "p \<in> set (local_maxima x (i + 1))"
          by (subst (asm) local_maxima.simps) (auto simp: a_def Let_def)
        with "1.IH"(2) [OF inside rising a_def False] show ?thesis by force
      qed
    qed
  qed
qed

lemma first_peak_range:
  assumes "first_peak ir = Inr p"
  shows "0 < p \<and> p + 1 < length ir"
proof -
  from assms obtain ps where "find_peaks (map (\<lambda>v. v / maximum ir) ir) (1 / 10) = p # ps"
    by (auto simp: first_peak_def Let_def split: if_splits list.splits)
  then have "p \<in> set (find_peaks (map (\<lambda>v. v / maximum ir) ir) (1 / 10))"
    by simp
  then have "p \<in> set (local_maxima (map (\<lambda>v. v / maximum ir) ir) 1)"
    by (simp add: find_peaks_def)
  from local_maxima_range [OF _ this] show ?thesis by simp
qed

lemma length_kaiser: "length (kaiser M beta) = M"
  by (simp add: kaiser_def Let_def)

lemma imul_prefix_full:
  assumes "length window = head" and "head \<le> length xs"
  shows "imul_prefix head window xs = Inr (map2 (*) (take head xs) window @ drop head xs)"
  using assms by (simp add: imul_prefix_def Let_def)

lemma faded_nth:
  assumes "length window = head" and "head \<le> length xs" and "head \<le> j"
  shows "(map2 (*) (take head xs) window @ drop head xs) ! j = xs ! j"
  using assms by (simp add: nth_append)

lemma faded_length:
  assumes "length window = head" and "head \<le> length xs"
  shows "length (map2 (*) (take head xs) window @ drop head xs) = length xs"
  using assms by simp

lemma np_round_nonneg: "0 \<le> x \<Longrightarrow> 0 \<le> np_round x"
  by (auto simp: np_round_def Let_def)

lemma SPEAKER_DELAYS_nonneg: "SPEAKER_DELAYS speaker = Some d \<Longrightarrow> 0 \<le> d"
  by (auto simp: SPEAKER_DELAYS_def split: if_splits)

lemma channel_delay_ge_head:
  assumes "channel_delay speaker fs head = Inr delay"
  shows "int head \<le> delay"
proof -
  from assms obtain d where d: "SPEAKER_DELAYS speaker = Some d"
    and delay: "delay = np_round (d / 1000 * real fs) + int head"
    by (auto simp: channel_delay_def split: option.splits)
  from d have "0 \<le> d / 1000 * real fs" using SPEAKER_DELAYS_nonneg by simp
  then show ?thesis using delay np_round_nonneg by fastforce
qed

lemma imul_prefix_same_length:
  assumes "length window = head" and "xs \<noteq> []"
  shows "imul_prefix head window xs =
    (if head \<le> length xs then Inr (map2 (*) (take head xs) window @ drop head xs)
     else Inl ShapeError)"
proof (cases "head \<le> length xs")
  case True
  with assms show ?thesis by (simp add: imul_prefix_def Let_def)
next
  case False
  with assms have "length window \<noteq> 1" "length window \<noteq> length (take head xs)"
    by (cases xs; simp)+
  with False show ?thesis by (simp add: imul_prefix_def Let_def)
qed

lemma imul_prefix_window:
  assumes "xs \<noteq> []"
  shows "imul_prefix head (take head (kaiser (head * 2) 16)) xs =
    (if head \<le> length xs then Inr (fade_in head xs) else Inl ShapeError)"
proof -
  have "length (take head (kaiser (head * 2) 16)) = head"
    by (simp add: length_kaiser)
  from imul_prefix_same_length [OF this assms] show ?thesis
    by (simp add: fade_in_def)
qed

lemma fade_in_length: "length (fade_in head xs) = length xs"
  by (simp add: fade_in_def length_kaiser)

lemma fade_in_nth: "head \<le> j \<Longrightarrow> head \<le> length xs \<Longrightarrow> fade_in head xs ! j = xs ! j"
  by (simp add: fade_in_def length_kaiser nth_append)

lemma crop_pair_start:
  assumes "(pl < pr \<and> speaker ! 1 \<noteq> CHR ''R'') \<or> (pr \<le> pl \<and> speaker ! 1 \<noteq> CHR ''L'')"
  shows "crop_pair left right speaker pl pr delay =
    Inr (slice_from (int (min pl pr) - delay) left, slice_from (int (min pl pr) - delay) right)"
  using assms by (auto simp: crop_pair_def Let_def min_def)

lemma crop_ir_head_start:
  assumes "first_peak left = Inr pl" and "first_peak right = Inr pr"
    and "channel_delay speaker fs (head_samples head_ms fs) = Inr delay"
    and "(pl < pr \<and> speaker ! 1 \<noteq> CHR ''R'') \<or> (pr \<le> pl \<and> speaker ! 1 \<noteq> CHR ''L'')"
    and "slice_from (int (min pl pr) - delay) left = l"
    and "slice_from (int (min pl pr) - delay) right = r"
    and "l \<noteq> []" and "r \<noteq> []"
  shows "crop_ir_head left right speaker fs head_ms =
    (if head_samples head_ms fs \<le> length l \<and> head_samples head_ms fs \<le> length r
     then Inr (fade_in (head_samples head_ms fs) l, fade_in (head_samples head_ms fs) r)
     else Inl ShapeError)"
  using assms(1-3) crop_pair_start [OF assms(4), of left right delay] assms(5-6)
    imul_prefix_window [OF assms(7)] imul_prefix_window [OF assms(8)]
  by (simp add: crop_ir_head_def Let_def)

text \<open>
  Evaluations at a sampling rate of 8000 Hz, where the head room is 8 samples and the
  delay of the front left speaker is 9 samples.
\<close>

lemma fp_l1: "first_peak [0, 1, 0, 0, 0, 0, 0, 0, 0, 0, 0, 0] = Inr 1"
  by (simp add: first_peak_def maximum_def find_peaks_def local_maxima.simps plateau_end.simps)

lemma fp_r3: "first_peak [0, 0, 0, 1, 0, 0, 0, 0, 0, 0, 0, 0] = Inr 3"
  by (simp add: first_peak_def maximum_def find_peaks_def local_maxima.simps plateau_end.simps)

lemma fp_l2: "first_peak [0, 0, 1, 0, 0, 0, 0, 0, 0, 0, 0, 0] = Inr 2"
  by (simp add: first_peak_def maximum_def find_peaks_def local_maxima.simps plateau_end.simps)

lemma fp_r4: "first_peak [0, 0, 0, 0, 1, 0, 0, 0, 0, 0, 0, 0] = Inr 4"
  by (simp add: first_peak_def maximum_def find_peaks_def local_maxima.simps plateau_end.simps)

lemma fp_l10: "first_peak [0, 0, 0, 0, 0, 0, 0, 0, 0, 0, 1, 0] = Inr 10"
  by (simp add: first_peak_def maximum_def find_peaks_def local_maxima.simps plateau_end.simps)

lemma fp_r12: "first_peak [0, 0, 0, 0, 0, 0, 0, 0, 0, 0, 0, 0, 1, 0] = Inr 12"
  by (simp add: first_peak_def maximum_def find_peaks_def local_maxima.simps plateau_end.simps)

lemma delay_FL_8000: "channel_delay ''FL'' 8000 (head_samples 1 8000) = Inr 9"
  by (simp add: channel_delay_def SPEAKER_DELAYS_def np_round_def head_samples_def)

lemma head_8000: "head_samples 1 8000 = 8"
  by (simp add: head_samples_def)

text \<open>
  Claim C2 fails on the code for a pair whose peaks come too early. The left response
  peaks at sample 1 and the right one at sample 3, which is consistent with the front
  left speaker, and the target delay is 9 samples. The crop start \<open>1 - 9\<close> is negative, so
  both slices are the last 8 samples of the arrays: the result holds 8 samples per ear,
  fewer than the 9 samples that should precede the near ear's peak.
\<close>

theorem crop_ir_head_aligned_counterexample:
  "first_peak [0, 1, 0, 0, 0, 0, 0, 0, 0, 0, 0, 0] = Inr 1 \<and>
   first_peak [0, 0, 0, 1, 0, 0, 0, 0, 0, 0, 0, 0] = Inr 3 \<and>
   head_samples 1 8000 = 8 \<and> channel_delay ''FL'' 8000 8 = Inr 9 \<and>
   crop_ir_head [0, 1, 0, 0, 0, 0, 0, 0, 0, 0, 0, 0] [0, 0, 0, 1, 0, 0, 0, 0, 0, 0, 0, 0]
     ''FL'' 8000 1 = Inr (fade_in 8 [0, 0, 0, 0, 0, 0, 0, 0], fade_in 8 [0, 0, 0, 0, 0, 0, 0, 0]) \<and>
   length (fade_in 8 [0, 0, 0, 0, 0, 0, 0, 0]) = 8"
proof -
  have "crop_ir_head [0, 1, 0, 0, 0, 0, 0, 0, 0, 0, 0, 0] [0, 0, 0, 1, 0, 0, 0, 0, 0, 0, 0, 0]
      ''FL'' 8000 1 =
    (if head_samples 1 8000 \<le> length [0, 0, 0, 0, 0, 0, 0, 0 :: real] \<and>
        head_samples 1 8000 \<le> length [0, 0, 0, 0, 0, 0, 0, 0 :: real]
     then Inr (fade_in (head_samples 1 8000) [0, 0, 0, 0, 0, 0, 0, 0],
               fade_in (head_samples 1 8000) [0, 0, 0, 0, 0, 0, 0, 0])
     else Inl ShapeError)"
    by (rule crop_ir_head_start [OF fp_l1 fp_r3 delay_FL_8000]) (simp_all add: slice_from_def)
  then show ?thesis
    by (simp add: fp_l1 fp_r3 delay_FL_8000 [unfolded head_8000] head_8000 fade_in_length
        del: One_nat_def)
qed


text \<open>
  Claim C2 as amended. When both peaks are found, the speaker is in the delay table, the
  order of the peaks is accepted for the speaker (left strictly first and not a right
  speaker, or right first or equal and not a left speaker) and the earlier peak index is
  at least the target delay, \<open>crop_ir_head\<close> returns a pair in which the earlier ear's
  peak sample sits at index \<open>delay\<close> and the later ear's at index \<open>delay + ITD\<close>. Both
  ears are cut at the same start, and every sample from the head room onwards is the
  input sample moved by that start.
\<close>

theorem crop_ir_head_aligned:
  assumes pl: "first_peak left = Inr pl" and pr: "first_peak right = Inr pr"
    and d: "channel_delay speaker fs (head_samples head_ms fs) = Inr delay"
    and c: "(pl < pr \<and> speaker ! 1 \<noteq> CHR ''R'') \<or> (pr \<le> pl \<and> speaker ! 1 \<noteq> CHR ''L'')"
    and lead: "delay \<le> int (min pl pr)"
  shows "\<exists>l r. crop_ir_head left right speaker fs head_ms = Inr (l, r) \<and>
     (if pl < pr
      then nat delay < length l \<and> l ! nat delay = left ! pl \<and>
           nat delay + (pr - pl) < length r \<and> r ! (nat delay + (pr - pl)) = right ! pr
      else nat delay + (pl - pr) < length l \<and> l ! (nat delay + (pl - pr)) = left ! pl \<and>
           nat delay < length r \<and> r ! nat delay = right ! pr) \<and>
     (\<forall>j. head_samples head_ms fs \<le> j \<and> j < length l \<longrightarrow>
        l ! j = left ! (min pl pr - nat delay + j)) \<and>
     (\<forall>j. head_samples head_ms fs \<le> j \<and> j < length r \<longrightarrow>
        r ! j = right ! (min pl pr - nat delay + j))"
proof -
  define head where "head = head_samples head_ms fs"
  define n where "n = min pl pr - nat delay"
  have hd: "int head \<le> delay" using d channel_delay_ge_head unfolding head_def by blast
  then have delay0: "0 \<le> delay" by simp
  have s: "int (min pl pr) - delay = int n" using lead delay0 by (simp add: n_def)
  have rl: "pl + 1 < length left" using first_peak_range [OF pl] by simp
  have rr: "pr + 1 < length right" using first_peak_range [OF pr] by simp
  have nd: "n + nat delay = min pl pr" using lead delay0 by (simp add: n_def)
  have hn: "head \<le> nat delay" using hd by simp
  let ?l = "drop n left" and ?r = "drop n right"
  have sl: "slice_from (int (min pl pr) - delay) left = ?l"
    and sr: "slice_from (int (min pl pr) - delay) right = ?r"
    by (simp_all add: s slice_from_def)
  have ll: "length ?l = length left - n" and lr: "length ?r = length right - n" by simp_all
  have nl: "n \<le> pl" "n \<le> pr" using nd by simp_all
  have big: "head \<le> length ?l" "head \<le> length ?r" "?l \<noteq> []" "?r \<noteq> []"
    using rl rr nd hn by auto
  have eq: "crop_ir_head left right speaker fs head_ms = Inr (fade_in head ?l, fade_in head ?r)"
    using crop_ir_head_start [OF pl pr d c sl sr big(3,4)] big(1,2) by (simp add: head_def)
  have nth_l: "fade_in head ?l ! j = left ! (n + j)" if "head \<le> j" for j
    using that big(1) nl rl by (simp add: fade_in_nth)
  have nth_r: "fade_in head ?r ! j = right ! (n + j)" if "head \<le> j" for j
    using that big(2) nl rr by (simp add: fade_in_nth)
  have peaks: "if pl < pr
      then nat delay < length (fade_in head ?l) \<and> fade_in head ?l ! nat delay = left ! pl \<and>
           nat delay + (pr - pl) < length (fade_in head ?r) \<and>
           fade_in head ?r ! (nat delay + (pr - pl)) = right ! pr
      else nat delay + (pl - pr) < length (fade_in head ?l) \<and>
           fade_in head ?l ! (nat delay + (pl - pr)) = left ! pl \<and>
           nat delay < length (fade_in head ?r) \<and> fade_in head ?r ! nat delay = right ! pr"
  proof (cases "pl < pr")
    case True
    then have m: "n + nat delay = pl" using nd by simp
    then have m': "n + (nat delay + (pr - pl)) = pr" using True by simp
    have "nat delay < length left - n" "nat delay + (pr - pl) < length right - n"
      using m m' rl rr by arith+
    moreover have "fade_in head ?l ! nat delay = left ! pl"
      using nth_l [of "nat delay"] hn m by simp
    moreover have "fade_in head ?r ! (nat delay + (pr - pl)) = right ! pr"
      using nth_r [of "nat delay + (pr - pl)"] hn m' by simp
    ultimately show ?thesis using True
      by (simp add: fade_in_length)
  next
    case False
    then have m: "n + nat delay = pr" using nd by simp
    then have m': "n + (nat delay + (pl - pr)) = pl" using False by simp
    have "nat delay + (pl - pr) < length left - n" "nat delay < length right - n"
      using m m' rl rr by arith+
    moreover have "fade_in head ?l ! (nat delay + (pl - pr)) = left ! pl"
      using nth_l [of "nat delay + (pl - pr)"] hn m' by simp
    moreover have "fade_in head ?r ! nat delay = right ! pr"
      using nth_r [of "nat delay"] hn m by simp
    ultimately show ?thesis using False
      by (simp add: fade_in_length)
  qed
  show ?thesis
    using eq peaks nth_l nth_r unfolding head_def [symmetric] n_def [symmetric]
    by (intro exI [of _ "fade_in head ?l"] exI [of _ "fade_in head ?r"]) simp
qed

theorem crop_ir_head_aligned_witness:
  "\<exists>l r. crop_ir_head [0, 0, 0, 0, 0, 0, 0, 0, 0, 0, 1, 0]
       [0, 0, 0, 0, 0, 0, 0, 0, 0, 0, 0, 0, 1, 0] ''FL'' 8000 1 = Inr (l, r) \<and>
     l ! 9 = 1 \<and> r ! 11 = 1"
proof -
  have "(10 < (12::nat) \<and> ''FL'' ! 1 \<noteq> CHR ''R'') \<or> ((12::nat) \<le> 10 \<and> ''FL'' ! 1 \<noteq> CHR ''L'')"
    by simp
  moreover have "(9::int) \<le> int (min 10 12)" by simp
  ultimately show ?thesis
    using crop_ir_head_aligned [OF fp_l10 fp_r12 delay_FL_8000]
    by (simp del: One_nat_def) blast
qed


text \<open>
  Claim C10 says that a peak index below the required lead always wraps silently into a
  shortened response. That holds only while the wrapped slice still has \<open>head\<close> samples.
  Here the left peak is at sample 2 and the delay is 9, so the slice is the last 7
  samples, and the fade-in over 8 samples fails with a shape error.
\<close>

theorem crop_ir_head_early_peak_counterexample:
  "first_peak [0, 0, 1, 0, 0, 0, 0, 0, 0, 0, 0, 0] = Inr 2 \<and>
   first_peak [0, 0, 0, 0, 1, 0, 0, 0, 0, 0, 0, 0] = Inr 4 \<and>
   head_samples 1 8000 = 8 \<and> channel_delay ''FL'' 8000 8 = Inr 9 \<and>
   crop_ir_head [0, 0, 1, 0, 0, 0, 0, 0, 0, 0, 0, 0] [0, 0, 0, 0, 1, 0, 0, 0, 0, 0, 0, 0]
     ''FL'' 8000 1 = Inl ShapeError"
proof -
  have "crop_ir_head [0, 0, 1, 0, 0, 0, 0, 0, 0, 0, 0, 0] [0, 0, 0, 0, 1, 0, 0, 0, 0, 0, 0, 0]
      ''FL'' 8000 1 =
    (if head_samples 1 8000 \<le> length [0, 0, 0, 0, 0, 0, 0 :: real] \<and>
        head_samples 1 8000 \<le> length [0, 0, 0, 0, 0, 0, 0 :: real]
     then Inr (fade_in (head_samples 1 8000) [0, 0, 0, 0, 0, 0, 0],
               fade_in (head_samples 1 8000) [0, 0, 0, 0, 0, 0, 0])
     else Inl ShapeError)"
    by (rule crop_ir_head_start [OF fp_l2 fp_r4 delay_FL_8000]) (simp_all add: slice_from_def)
  then show ?thesis
    by (simp add: fp_l2 fp_r4 delay_FL_8000 [unfolded head_8000] head_8000 del: One_nat_def)
qed


text \<open>
  Claim C10 as amended. When the order of the peaks is accepted and the earlier peak
  index is below the target delay, the crop start is negative and both slices are the
  last \<open>k = delay - peak\<close> samples of the arrays (all of an array shorter than \<open>k\<close>). If
  both slices hold at least \<open>head\<close> samples the function returns them faded in, without
  an error; otherwise the fade-in raises a shape error. A returned channel holds fewer
  than \<open>delay\<close> samples, so the target delay cannot precede its peak.
\<close>

theorem crop_ir_head_early_peak:
  assumes pl: "first_peak left = Inr pl" and pr: "first_peak right = Inr pr"
    and d: "channel_delay speaker fs (head_samples head_ms fs) = Inr delay"
    and c: "(pl < pr \<and> speaker ! 1 \<noteq> CHR ''R'') \<or> (pr \<le> pl \<and> speaker ! 1 \<noteq> CHR ''L'')"
    and early: "int (min pl pr) < delay"
  shows "crop_ir_head left right speaker fs head_ms =
      (if head_samples head_ms fs \<le> min (nat (delay - int (min pl pr))) (length left) \<and>
          head_samples head_ms fs \<le> min (nat (delay - int (min pl pr))) (length right)
       then Inr (fade_in (head_samples head_ms fs)
                   (drop (length left - nat (delay - int (min pl pr))) left),
                 fade_in (head_samples head_ms fs)
                   (drop (length right - nat (delay - int (min pl pr))) right))
       else Inl ShapeError) \<and>
    (\<forall>l r. crop_ir_head left right speaker fs head_ms = Inr (l, r) \<longrightarrow>
       length l = min (nat (delay - int (min pl pr))) (length left) \<and>
       length r = min (nat (delay - int (min pl pr))) (length right) \<and>
       int (length l) < delay \<and> int (length r) < delay)"
proof -
  define head where "head = head_samples head_ms fs"
  define k where "k = nat (delay - int (min pl pr))"
  have k0: "0 < k" using early by (simp add: k_def)
  have rl: "0 < pl" "pl + 1 < length left" using first_peak_range [OF pl] by simp_all
  have rr: "0 < pr" "pr + 1 < length right" using first_peak_range [OF pr] by simp_all
  have kd: "int k < delay" using rl(1) rr(1) early by (simp add: k_def min_def)
  let ?l = "drop (length left - k) left" and ?r = "drop (length right - k) right"
  have sl: "slice_from (int (min pl pr) - delay) left = ?l"
    and sr: "slice_from (int (min pl pr) - delay) right = ?r"
    using early by (simp_all add: slice_from_def k_def)
  have ll: "length ?l = min k (length left)" and lr: "length ?r = min k (length right)"
    by simp_all
  have ne: "?l \<noteq> []" "?r \<noteq> []" using k0 rl(2) rr(2) by simp_all
  have eq: "crop_ir_head left right speaker fs head_ms =
      (if head \<le> min k (length left) \<and> head \<le> min k (length right)
       then Inr (fade_in head ?l, fade_in head ?r) else Inl ShapeError)"
    using crop_ir_head_start [OF pl pr d c sl sr ne] unfolding head_def ll lr .
  have "length l = min k (length left) \<and> length r = min k (length right) \<and>
      int (length l) < delay \<and> int (length r) < delay"
    if "crop_ir_head left right speaker fs head_ms = Inr (l, r)" for l r
  proof -
    from that eq have "l = fade_in head ?l" "r = fade_in head ?r"
      by (simp_all split: if_splits)
    then have "length l = min k (length left)" "length r = min k (length right)"
      by (simp_all add: fade_in_length)
    with kd show ?thesis by (simp add: min_def)
  qed
  with eq show ?thesis unfolding head_def k_def by blast
qed


theorem crop_ir_head_early_peak_witness:
  "crop_ir_head [0, 1, 0, 0, 0, 0, 0, 0, 0, 0, 0, 0] [0, 0, 0, 1, 0, 0, 0, 0, 0, 0, 0, 0]
     ''FL'' 8000 1 = Inr (fade_in 8 [0, 0, 0, 0, 0, 0, 0, 0], fade_in 8 [0, 0, 0, 0, 0, 0, 0, 0])"
proof -
  have "(1 < (3::nat) \<and> ''FL'' ! 1 \<noteq> CHR ''R'') \<or> ((3::nat) \<le> 1 \<and> ''FL'' ! 1 \<noteq> CHR ''L'')"
    by simp
  moreover have "int (min 1 3) < (9::int)" by simp
  ultimately show ?thesis
    using crop_ir_head_early_peak [OF fp_l1 fp_r3 delay_FL_8000]
    by (simp add: head_8000 del: One_nat_def)
qed

subsection \<open>Deconvolution with the inverse filter\<close>

lemma length_convolve_full:
  "length (convolve_full xs ys) = (if xs = [] \<or> ys = [] then 0 else length xs + length ys - 1)"
  by (simp add: convolve_full_def)

lemma length_inverse_filter: "length (inverse_filter ts fs) = length ts"
  by (simp add: inverse_filter_def Let_def)

lemma length_normalized_filter: "length (normalized_filter ts fs) = length ts"
  by (simp add: normalized_filter_def length_inverse_filter)

lemma inv_10: "inverse_filter [1, 0] fs = [0, exp (ln (10 powr ((- 6 * log 2 (20000 / real fs * 2 * pi / (20 / real fs * 2 * pi))) / 20)) / 2)]"
  by (simp add: inverse_filter_def Let_def)

lemma conv_ex: "convolve_full [0, a] [1, 0] = [0, a, 0]"
  by (simp add: convolve_full_def numeral_2_eq_2 upt_rec)

lemma gain_10: "0 < g \<Longrightarrow> cmod (dft_bin [0, g, 0] 1) = g"
  by (simp add: dft_bin_def numeral_3_eq_3 norm_mult)

lemma np_round_three_quarters: "np_round (3 / 4) = 1"
proof -
  have "\<lfloor>3 / 4 :: real\<rfloor> = 0" by simp
  then show ?thesis by (simp add: np_round_def Let_def)
qed

lemma filter_gain_10: "filter_gain [1, 0] fs \<noteq> 0 \<and> normalized_filter [1, 0] fs = [0, 1]"
proof -
  define g where "g = exp (ln (10 powr ((- 6 * log 2 (20000 / real fs * 2 * pi / (20 / real fs * 2 * pi))) / 20)) / 2)"
  have g: "0 < g" by (simp add: g_def)
  have inv: "inverse_filter [1, 0] fs = [0, g]" unfolding g_def by (rule inv_10)
  have "filter_gain [1, 0] fs = g"
    using gain_10 [OF g] by (simp add: filter_gain_def inv conv_ex np_round_three_quarters)
  with g inv show ?thesis by (simp add: normalized_filter_def)
qed

lemma conv_10_01: "convolve_full [1, 0] [0, 1] = [0, 1, 0]"
  by code_simp


text \<open>
  Claim C7 says that the returned window spans the reference length plus one samples of
  the convolution. The code appends one zero to the convolution and then slices
  \<open>h[N : 2N + 1]\<close>, which cannot reach past the end. For a recording of the reference's
  own length \<open>N = 2\<close>, as the pipeline passes it, the convolution has 3 samples and the
  result has 2 samples, the second one being the appended zero.
\<close>

theorem deconv_window_counterexample:
  "convolve_full [1, 0] (normalized_filter [1, 0] 48000) = [0, 1, 0] \<and>
   deconv_inverse_filter [1, 0] [1, 0] (Some 48000) = Inr [0, 0]"
proof -
  have nf: "normalized_filter [1, 0] 48000 = [0, 1]" and g: "filter_gain [1, 0] 48000 \<noteq> 0"
    using filter_gain_10 [of 48000] by simp_all
  show ?thesis
    by (simp add: deconv_inverse_filter_def g nf conv_10_01 slice_to_def slice_from_def)
qed


text \<open>
  Claim C7 as amended. For a test signal of at least two samples, a positive sampling rate
  and a probe of nonzero magnitude, the inverse filter method returns the window that
  starts at index \<open>N\<close>, the reference length, of the full convolution of the recording
  with the normalized inverse filter followed by one zero sample. The window spans
  \<open>min (N + 1) (length recording)\<close> samples: \<open>N + 1\<close> for a recording longer than the
  reference, and the recording's length otherwise, where the last sample is the
  appended zero.
\<close>

theorem deconv_window:
  assumes "2 \<le> length test_signal" and "0 < fs" and "filter_gain test_signal fs \<noteq> 0"
  shows "\<exists>h. deconv_inverse_filter recording test_signal (Some fs) = Inr h \<and>
      length h = min (length test_signal + 1) (length recording) \<and>
      (\<forall>j<length h.
         h ! j = (if length test_signal + j < length recording + length test_signal - 1
                  then convolve_full recording (normalized_filter test_signal fs) !
                         (length test_signal + j)
                  else 0))"
proof -
  define N where "N = length test_signal"
  define cv where "cv = convolve_full recording (normalized_filter test_signal fs)"
  define hh where "hh = cv @ [0]"
  have eq: "deconv_inverse_filter recording test_signal (Some fs) =
      Inr (drop N (take (N * 2 + 1) hh))"
    using assms unfolding hh_def cv_def N_def
    by (simp add: deconv_inverse_filter_def slice_to_def slice_from_def Let_def
        nat_add_distrib nat_mult_distrib del: take_append drop_append)
  have "normalized_filter test_signal fs \<noteq> []"
    using assms(1) length_normalized_filter [of test_signal fs] by auto
  then have lcv: "length cv = (if recording = [] then 0 else length recording + N - 1)"
    by (simp add: cv_def length_convolve_full N_def length_normalized_filter)
  have lhh: "length hh = (if recording = [] then 1 else length recording + N)"
    using lcv by (simp add: hh_def)
  have N2: "2 \<le> N" using assms(1) by (simp add: N_def)
  have len: "length (drop N (take (N * 2 + 1) hh)) = min (N + 1) (length recording)"
    using lhh N2 by auto
  have nth: "drop N (take (N * 2 + 1) hh) ! j =
      (if N + j < length recording + N - 1 then cv ! (N + j) else 0)"
    if "j < length (drop N (take (N * 2 + 1) hh))" for j
  proof -
    from that have j: "j < N + 1" "j < length recording" using len by simp_all
    then have ne: "recording \<noteq> []" by auto
    from j have "drop N (take (N * 2 + 1) hh) ! j = hh ! (N + j)" using lhh ne by simp
    also have "\<dots> = (if N + j < length recording + N - 1 then cv ! (N + j) else 0)"
      using lcv ne j by (auto simp: hh_def nth_append)
    finally show ?thesis .
  qed
  let ?w = "drop N (take (N * 2 + 1) hh)"
  have "deconv_inverse_filter recording test_signal (Some fs) = Inr ?w \<and>
      length ?w = min (N + 1) (length recording) \<and>
      (\<forall>j<length ?w. ?w ! j =
         (if N + j < length recording + N - 1 then cv ! (N + j) else 0))"
    using eq len nth by blast
  then show ?thesis unfolding N_def cv_def by blast
qed


theorem deconv_window_witness:
  "\<exists>h. deconv_inverse_filter [1, 0, 0, 0] [1, 0] (Some 48000) = Inr h \<and> length h = 3 \<and>
     h ! 0 = convolve_full [1, 0, 0, 0] (normalized_filter [1, 0] 48000) ! 2"
proof -
  have g: "filter_gain [1, 0] 48000 \<noteq> 0"
    using filter_gain_10 [of 48000] by simp
  have "2 \<le> length [1, 0 :: real]" and "0 < (48000 :: nat)" by simp_all
  from deconv_window [OF this g, of "[1, 0, 0, 0]"]
  obtain h where "deconv_inverse_filter [1, 0, 0, 0] [1, 0] (Some 48000) = Inr h"
    and "length h = 3"
    and "\<forall>j<length h. h ! j =
       (if 2 + j < 5 then convolve_full [1, 0, 0, 0] (normalized_filter [1, 0] 48000) ! (2 + j)
        else 0)"
    by auto
  then show ?thesis by (auto simp: numeral_2_eq_2)
qed

end
